theory Spec2Isabelle
  imports Main
begin

section \<open>Persistence: the progress store and the history log (src/utils.py)\<close>

text \<open>
  The values that \<^verbatim>\<open>json.dump\<close> writes and \<^verbatim>\<open>json.load\<close> reads back.  A progress
  record is an object from day keys to objects, a history record is an object, the
  history file holds a list of them.
\<close>

datatype json =
    JNull
  | JBool bool
  | JInt int
  | JStr string
  | JList "json list"
  | JObj "(string \<times> json) list"

text \<open>
  What a file holds: text that \<^verbatim>\<open>json.load\<close> parses to a value, or text that it
  rejects.  \<^verbatim>\<open>json.dump v\<close> followed by \<^verbatim>\<open>json.load\<close> gives \<open>v\<close> back for every value of
  type \<open>json\<close>; that contract of the library is what \<open>Valid v\<close> stands for.
\<close>

datatype content = Valid json | Corrupt

text \<open>How \<^verbatim>\<open>open(path, "w")\<close> followed by \<^verbatim>\<open>json.dump\<close> can go wrong on a path:
  the open raises and the file is left as it was, or the open truncates the file and the
  dump raises half way, leaving text that does not parse.\<close>

datatype fault = NoFault | OpenFault | DumpFault

datatype error = OSError | AttributeError | IndexError

text \<open>
  The part of the operating system that the module touches: whether the data directory
  exists and whether \<^verbatim>\<open>os.makedirs\<close> can create it, the files by path, the paths whose
  files cannot be opened for reading, and the write fault of each path.
\<close>

record world =
  data_dir :: bool
  mkdir_ok :: bool
  files :: "string \<rightharpoonup> content"
  read_fault :: "string \<Rightarrow> bool"
  write_fault :: "string \<Rightarrow> fault"

text \<open>
  A running interpreter.  \<^verbatim>\<open>hash\<close> on a \<^verbatim>\<open>str\<close> is salted with a value drawn when the
  interpreter starts, so the function from strings to hash values belongs to the process
  and not to the program.
\<close>

record process =
  str_hash :: "string \<Rightarrow> int"

text \<open>Decimal rendering of an integer, as an f-string does it.\<close>

definition digit_char :: "nat \<Rightarrow> char" where
  "digit_char d = char_of (48 + d)"

fun str_nat :: "nat \<Rightarrow> string" where
  "str_nat n = (if n < 10 then [digit_char n] else str_nat (n div 10) @ [digit_char (n mod 10)])"

declare str_nat.simps [simp del]

definition str_int :: "int \<Rightarrow> string" where
  "str_int i = (if i < 0 then CHR ''-'' # str_nat (nat (- i)) else str_nat (nat i))"

text \<open>\<^verbatim>\<open>DATA_DIR\<close> and \<^verbatim>\<open>HISTORY_PATH\<close>, relative to the directory of the module.\<close>

definition DATA_DIR :: string where
  "DATA_DIR = ''data''"

definition path_join :: "string \<Rightarrow> string \<Rightarrow> string" where
  "path_join d f = d @ ''/'' @ f"

definition HISTORY_PATH :: string where
  "HISTORY_PATH = path_join DATA_DIR ''history.json''"

definition progress_file :: "process \<Rightarrow> string \<Rightarrow> string" where
  "progress_file p user_goal =
     path_join DATA_DIR (''progress_'' @ str_int (str_hash p user_goal) @ ''.json'')"

text \<open>\<^verbatim>\<open>_ensure_data_dir\<close>: creates the directory when it is missing; a directory that
  has just been created is empty.  \<^verbatim>\<open>os.makedirs\<close> raises when it cannot create it.\<close>

definition ensure_data_dir :: "world \<Rightarrow> error + world" where
  "ensure_data_dir w =
     (if data_dir w then Inr w
      else if mkdir_ok w then Inr (w\<lparr>data_dir := True, files := Map.empty\<rparr>)
      else Inl OSError)"

definition isfile :: "world \<Rightarrow> string \<Rightarrow> bool" where
  "isfile w path = (data_dir w \<and> files w path \<noteq> None)"

text \<open>\<^verbatim>\<open>with open(path, "r") as f: return json.load(f)\<close>; \<open>None\<close> is any exception.\<close>

definition read_json :: "world \<Rightarrow> string \<Rightarrow> json option" where
  "read_json w path =
     (if read_fault w path then None
      else case files w path of
             Some (Valid v) \<Rightarrow> Some v
           | _ \<Rightarrow> None)"

text \<open>\<^verbatim>\<open>with open(path, "w") as f: json.dump(v, f, ...)\<close>: the world afterwards, and
  whether an exception left the block.\<close>

definition write_json :: "world \<Rightarrow> string \<Rightarrow> json \<Rightarrow> world \<times> bool" where
  "write_json w path v =
     (case write_fault w path of
        NoFault \<Rightarrow> (w\<lparr>files := (files w)(path \<mapsto> Valid v)\<rparr>, True)
      | OpenFault \<Rightarrow> (w, False)
      | DumpFault \<Rightarrow> (w\<lparr>files := (files w)(path \<mapsto> Corrupt)\<rparr>, False))"

text \<open>\<^verbatim>\<open>load_progress\<close>: the world (the directory may have been created) and the value
  returned; the empty dict when there is no file or reading fails.\<close>

definition load_progress :: "process \<Rightarrow> world \<Rightarrow> string \<Rightarrow> error + (world \<times> json)" where
  "load_progress p w user_goal =
     (case ensure_data_dir w of
        Inl e \<Rightarrow> Inl e
      | Inr w1 \<Rightarrow>
          (let progress_file = progress_file p user_goal in
           if \<not> isfile w1 progress_file then Inr (w1, JObj [])
           else case read_json w1 progress_file of
                  Some v \<Rightarrow> Inr (w1, v)
                | None \<Rightarrow> Inr (w1, JObj [])))"

text \<open>\<^verbatim>\<open>save_progress\<close>: the write sits in \<^verbatim>\<open>try ... except Exception: pass\<close>.\<close>

definition save_progress :: "process \<Rightarrow> world \<Rightarrow> string \<Rightarrow> json \<Rightarrow> error + world" where
  "save_progress p w user_goal progress =
     (case ensure_data_dir w of
        Inl e \<Rightarrow> Inl e
      | Inr w1 \<Rightarrow> Inr (fst (write_json w1 (progress_file p user_goal) progress)))"

definition load_history :: "world \<Rightarrow> error + (world \<times> json)" where
  "load_history w =
     (case ensure_data_dir w of
        Inl e \<Rightarrow> Inl e
      | Inr w1 \<Rightarrow>
          (if \<not> isfile w1 HISTORY_PATH then Inr (w1, JList [])
           else case read_json w1 HISTORY_PATH of
                  Some v \<Rightarrow> Inr (w1, v)
                | None \<Rightarrow> Inr (w1, JList [])))"

text \<open>\<^verbatim>\<open>history.append(record)\<close>: only a list has \<^verbatim>\<open>append\<close>.\<close>

definition append_record :: "json \<Rightarrow> json \<Rightarrow> error + json" where
  "append_record history record =
     (case history of JList rs \<Rightarrow> Inr (JList (rs @ [record])) | _ \<Rightarrow> Inl AttributeError)"

text \<open>\<^verbatim>\<open>save_history_record\<close>: the second call of \<^verbatim>\<open>_ensure_data_dir\<close> (inside
  \<^verbatim>\<open>load_history\<close>) finds the directory; the write is not guarded, so its exception
  leaves the function, after the file has been touched as the fault says.\<close>

definition save_history_record :: "world \<Rightarrow> json \<Rightarrow> world \<times> error option" where
  "save_history_record w record =
     (case ensure_data_dir w of
        Inl e \<Rightarrow> (w, Some e)
      | Inr w1 \<Rightarrow>
          (case load_history w1 of
             Inl e \<Rightarrow> (w1, Some e)
           | Inr (w2, history) \<Rightarrow>
               (case append_record history record of
                  Inl e \<Rightarrow> (w2, Some e)
                | Inr history' \<Rightarrow>
                    (case write_json w2 HISTORY_PATH history' of
                       (w3, True) \<Rightarrow> (w3, None)
                     | (w3, False) \<Rightarrow> (w3, Some OSError)))))"

subsection \<open>Example worlds and records\<close>

text \<open>Reading a decimal numeral back, to show that \<open>str_int\<close> is injective.\<close>

fun nat_of_digits :: "nat \<Rightarrow> string \<Rightarrow> nat" where
  "nat_of_digits acc [] = acc"
| "nat_of_digits acc (c # cs) = nat_of_digits (10 * acc + (of_char c - 48)) cs"

definition fresh_world :: world where
  "fresh_world = \<lparr>data_dir = True, mkdir_ok = True, files = Map.empty,
     read_fault = (\<lambda>_. False), write_fault = (\<lambda>_. NoFault)\<rparr>"

definition day1_done :: json where
  "day1_done = JObj [(''day_1'', JObj [(''completed'', JBool True), (''title'', JStr ''Day 1:''),
     (''topic'', JStr ''Recursion'')])]"

definition rec_a :: json where "rec_a = JObj [(''goal'', JStr ''learn python'')]"

definition rec_b :: json where "rec_b = JObj [(''goal'', JStr ''learn rust'')]"

definition rec_old :: json where "rec_old = JObj [(''goal'', JStr ''learn c'')]"

definition hist_file :: "json \<Rightarrow> world" where
  "hist_file v = fresh_world\<lparr>files := [HISTORY_PATH \<mapsto> Valid v]\<rparr>"

definition read_only_world :: world where
  "read_only_world = fresh_world\<lparr>write_fault := (\<lambda>_. OpenFault)\<rparr>"

text \<open>A world whose history file can be written but not opened for reading.\<close>

definition write_only_world :: "json \<Rightarrow> world" where
  "write_only_world v =
     fresh_world\<lparr>files := [HISTORY_PATH \<mapsto> Valid v], read_fault := (\<lambda>_. True)\<rparr>"

section \<open>Python strings\<close>

text \<open>
  A \<^verbatim>\<open>str\<close> is modelled as a \<open>string\<close> whose characters are the code points below 256.
  On these, \<^verbatim>\<open>str.isspace\<close> (which \<^verbatim>\<open>strip()\<close> and the pattern \<^verbatim>\<open>\s\<close> use) holds of
  tab, line feed, vertical tab, form feed, carriage return, the separators 0x1C to 0x1F,
  the space, 0x85 and 0xA0; the decimal digits (\<^verbatim>\<open>\d\<close>) are \<^verbatim>\<open>0\<close> to \<^verbatim>\<open>9\<close>; and letters
  that differ only in case are the ASCII ones as far as the patterns of the module go.
\<close>

definition isspace :: "char \<Rightarrow> bool" where
  "isspace c = (let n = (of_char c :: nat) in
     (9 \<le> n \<and> n \<le> 13) \<or> (28 \<le> n \<and> n \<le> 32) \<or> n = 133 \<or> n = 160)"

definition isdigit :: "char \<Rightarrow> bool" where
  "isdigit c = (let n = (of_char c :: nat) in 48 \<le> n \<and> n \<le> 57)"

definition lower :: "char \<Rightarrow> char" where
  "lower c = (let n = (of_char c :: nat) in if 65 \<le> n \<and> n \<le> 90 then char_of (n + 32) else c)"

text \<open>\<^verbatim>\<open>s.strip()\<close> and \<^verbatim>\<open>s.strip(chars)\<close>.\<close>

definition strip_by :: "(char \<Rightarrow> bool) \<Rightarrow> string \<Rightarrow> string" where
  "strip_by P s = rev (dropWhile P (rev (dropWhile P s)))"

definition strip :: "string \<Rightarrow> string" where
  "strip s = strip_by isspace s"

definition strip_chars :: "string \<Rightarrow> string \<Rightarrow> string" where
  "strip_chars chars s = strip_by (\<lambda>c. c \<in> set chars) s"

text \<open>
  \<^verbatim>\<open>s.splitlines()\<close>: a line ends at \<^verbatim>\<open>\n\<close>, \<^verbatim>\<open>\r\<close>, \<^verbatim>\<open>\r\n\<close>, \<^verbatim>\<open>\v\<close>, \<^verbatim>\<open>\f\<close>, 0x1C, 0x1D,
  0x1E or 0x85; the line ends are dropped and no empty last line is produced.
\<close>

definition is_linebreak :: "char \<Rightarrow> bool" where
  "is_linebreak c = (let n = (of_char c :: nat) in
     (10 \<le> n \<and> n \<le> 13) \<or> (28 \<le> n \<and> n \<le> 30) \<or> n = 133)"

fun splitlines_from :: "string \<Rightarrow> string \<Rightarrow> string list" where
  "splitlines_from cur [] = (if cur = [] then [] else [rev cur])"
| "splitlines_from cur [x] =
     (if is_linebreak x then [rev cur] else [rev (x # cur)])"
| "splitlines_from cur (x # y # ys) =
     (if x = CHR 0x0D \<and> y = CHR 0x0A then rev cur # splitlines_from [] ys
      else if is_linebreak x then rev cur # splitlines_from [] (y # ys)
      else splitlines_from (x # cur) (y # ys))"

definition splitlines :: "string \<Rightarrow> string list" where
  "splitlines s = splitlines_from [] s"

text \<open>\<^verbatim>\<open>sep.join(xs)\<close>.\<close>

fun join :: "string \<Rightarrow> string list \<Rightarrow> string" where
  "join sep [] = []"
| "join sep [x] = x"
| "join sep (x # y # ys) = x @ sep @ join sep (y # ys)"

definition startswith :: "string \<Rightarrow> string \<Rightarrow> bool" where
  "startswith s p = (take (length p) s = p)"

definition endswith :: "string \<Rightarrow> string \<Rightarrow> bool" where
  "endswith s p = startswith (rev s) (rev p)"

text \<open>\<^verbatim>\<open>sub in s\<close>.\<close>

fun contains :: "string \<Rightarrow> string \<Rightarrow> bool" where
  "contains sub [] = (sub = [])"
| "contains sub (x # xs) = (startswith (x # xs) sub \<or> contains sub xs)"

text \<open>\<^verbatim>\<open>s.split(sep)[0]\<close> for a non-empty \<open>sep\<close>: the text before the first \<open>sep\<close>, or all
  of \<open>s\<close>.\<close>

fun before_first :: "string \<Rightarrow> string \<Rightarrow> string" where
  "before_first sep [] = []"
| "before_first sep (x # xs) = (if startswith (x # xs) sep then [] else x # before_first sep xs)"

text \<open>\<^verbatim>\<open>xs[-2:]\<close> and \<^verbatim>\<open>xs[:10]\<close> are \<open>drop (length xs - 2) xs\<close> and \<open>take 10 xs\<close>.\<close>

definition last2 :: "'a list \<Rightarrow> 'a list" where
  "last2 xs = drop (length xs - 2) xs"

text \<open>
  \<^verbatim>\<open>urllib.parse.quote_plus\<close>: letters, digits and \<^verbatim>\<open>_.-~\<close> stay, a space becomes \<^verbatim>\<open>+\<close>,
  every other character is replaced by \<^verbatim>\<open>%XX\<close> for each byte of its UTF-8 encoding.
\<close>

definition hex_digit :: "nat \<Rightarrow> char" where
  "hex_digit d = (if d < 10 then char_of (48 + d) else char_of (55 + d))"

definition percent :: "nat \<Rightarrow> string" where
  "percent b = [CHR ''%'', hex_digit (b div 16), hex_digit (b mod 16)]"

definition is_unreserved :: "char \<Rightarrow> bool" where
  "is_unreserved c = (let n = (of_char c :: nat) in
     (48 \<le> n \<and> n \<le> 57) \<or> (65 \<le> n \<and> n \<le> 90) \<or> (97 \<le> n \<and> n \<le> 122)
     \<or> c = CHR ''_'' \<or> c = CHR ''.'' \<or> c = CHR ''-'' \<or> c = CHR ''~'')"

definition quote_char :: "char \<Rightarrow> string" where
  "quote_char c = (let n = (of_char c :: nat) in
     if is_unreserved c then [c]
     else if c = CHR '' '' then ''+''
     else if n < 128 then percent n
     else percent (192 + n div 64) @ percent (128 + n mod 64))"

definition quote_plus :: "string \<Rightarrow> string" where
  "quote_plus s = concat (map quote_char s)"

section \<open>The regular expressions of Python's \<^verbatim>\<open>re\<close>\<close>

text \<open>
  The patterns of the module are written as terms of \<open>regex\<close> and run by a backtracking
  matcher that lists the ways a pattern can match at a position in the order in which
  \<^verbatim>\<open>re\<close> tries them: the first one is the match \<^verbatim>\<open>re\<close> reports.  Repetition is needed on
  single characters only; \<open>Rep c n g\<close> is \<^verbatim>\<open>c*\<close> (\<open>n = 0\<close>) or \<^verbatim>\<open>c+\<close> (\<open>n = 1\<close>), greedy when
  \<open>g\<close> holds and lazy (\<^verbatim>\<open>*?\<close>) otherwise.
\<close>

datatype citem = IChar char | ISpace | INonSpace | IDigit

datatype cclass =
    Lit char
  | Space
  | NonSpace
  | Digit
  | Dot
  | Set "citem list"
  | NotSet "citem list"

datatype regex =
    Ch cclass
  | Str string
  | Seq regex regex
  | Alt regex regex
  | Rep cclass nat bool
  | Opt regex
  | Grp nat regex
  | Bol
  | Eol
  | Look regex

record flags =
  ignorecase :: bool
  multiline :: bool
  dotall :: bool

definition no_flags :: flags where
  "no_flags = \<lparr>ignorecase = False, multiline = False, dotall = False\<rparr>"

definition flags_i :: flags where
  "flags_i = \<lparr>ignorecase = True, multiline = False, dotall = False\<rparr>"

definition flags_is :: flags where
  "flags_is = \<lparr>ignorecase = True, multiline = False, dotall = True\<rparr>"

definition flags_im :: flags where
  "flags_im = \<lparr>ignorecase = True, multiline = True, dotall = False\<rparr>"

definition same_char :: "flags \<Rightarrow> char \<Rightarrow> char \<Rightarrow> bool" where
  "same_char f c x = (if ignorecase f then lower c = lower x else c = x)"

fun imatch :: "flags \<Rightarrow> citem \<Rightarrow> char \<Rightarrow> bool" where
  "imatch f (IChar c) x = same_char f c x"
| "imatch f ISpace x = isspace x"
| "imatch f INonSpace x = (\<not> isspace x)"
| "imatch f IDigit x = isdigit x"

fun cmatch :: "flags \<Rightarrow> cclass \<Rightarrow> char \<Rightarrow> bool" where
  "cmatch f (Lit c) x = same_char f c x"
| "cmatch f Space x = isspace x"
| "cmatch f NonSpace x = (\<not> isspace x)"
| "cmatch f Digit x = isdigit x"
| "cmatch f Dot x = (dotall f \<or> x \<noteq> CHR 0x0A)"
| "cmatch f (Set is) x = list_ex (\<lambda>i. imatch f i x) is"
| "cmatch f (NotSet is) x = (\<not> list_ex (\<lambda>i. imatch f i x) is)"

text \<open>
  A position in the subject: the text before it (nearest character first), the text from
  it on, and the groups captured so far (latest first).
\<close>

datatype mstate = MState (left: string) (right: string) (caps: "(nat \<times> string) list")

text \<open>The positions reached by consuming 0, 1, 2, ... characters that satisfy \<open>P\<close>.\<close>

fun rep_states :: "(char \<Rightarrow> bool) \<Rightarrow> string \<Rightarrow> string \<Rightarrow> (string \<times> string) list" where
  "rep_states P l [] = [(l, [])]"
| "rep_states P l (x # xs) = (l, x # xs) # (if P x then rep_states P (x # l) xs else [])"

fun str_match :: "flags \<Rightarrow> string \<Rightarrow> string \<Rightarrow> string \<Rightarrow> (string \<times> string) option" where
  "str_match f [] l r = Some (l, r)"
| "str_match f (c # cs) l [] = None"
| "str_match f (c # cs) l (x # xs) = (if same_char f c x then str_match f cs (x # l) xs else None)"

definition at_bol :: "flags \<Rightarrow> mstate \<Rightarrow> bool" where
  "at_bol f s = (case left s of [] \<Rightarrow> True | x # _ \<Rightarrow> multiline f \<and> x = CHR 0x0A)"

definition at_eol :: "flags \<Rightarrow> mstate \<Rightarrow> bool" where
  "at_eol f s = (case right s of [] \<Rightarrow> True
                 | x # xs \<Rightarrow> x = CHR 0x0A \<and> (multiline f \<or> xs = []))"

definition capture :: "nat \<Rightarrow> mstate \<Rightarrow> mstate \<Rightarrow> mstate" where
  "capture n s s' =
     MState (left s') (right s')
       ((n, take (length (right s) - length (right s')) (right s)) # caps s')"

fun rmatch :: "flags \<Rightarrow> regex \<Rightarrow> mstate \<Rightarrow> mstate list" where
  "rmatch f (Ch c) s =
     (case right s of [] \<Rightarrow> []
      | x # xs \<Rightarrow> if cmatch f c x then [MState (x # left s) xs (caps s)] else [])"
| "rmatch f (Str w) s =
     (case str_match f w (left s) (right s) of None \<Rightarrow> []
      | Some (l, r) \<Rightarrow> [MState l r (caps s)])"
| "rmatch f (Seq a b) s = concat (map (rmatch f b) (rmatch f a s))"
| "rmatch f (Alt a b) s = rmatch f a s @ rmatch f b s"
| "rmatch f (Rep c n greedy) s =
     (let sts = drop n (rep_states (cmatch f c) (left s) (right s))
      in map (\<lambda>(l, r). MState l r (caps s)) (if greedy then rev sts else sts))"
| "rmatch f (Opt a) s = rmatch f a s @ [s]"
| "rmatch f (Grp n a) s = map (capture n s) (rmatch f a s)"
| "rmatch f Bol s = (if at_bol f s then [s] else [])"
| "rmatch f Eol s = (if at_eol f s then [s] else [])"
| "rmatch f (Look a) s = (if rmatch f a s = [] then [] else [s])"

text \<open>A match object: \<^verbatim>\<open>m.start()\<close>, \<^verbatim>\<open>m.group(0)\<close> and the numbered groups.\<close>

datatype rematch = Match (m_start: nat) (m_text: string) (m_caps: "(nat \<times> string) list")

definition group :: "rematch \<Rightarrow> nat \<Rightarrow> string" where
  "group m n = (if n = 0 then m_text m else case map_of (m_caps m) n of Some g \<Rightarrow> g | None \<Rightarrow> [])"

definition m_end :: "rematch \<Rightarrow> nat" where
  "m_end m = m_start m + length (m_text m)"

text \<open>The match of \<open>r\<close> that starts at the position \<open>(l, r0)\<close>, if there is one.\<close>

definition match_at :: "flags \<Rightarrow> regex \<Rightarrow> string \<Rightarrow> string \<Rightarrow> rematch option" where
  "match_at f r l r0 =
     (case rmatch f r (MState l r0 []) of
        [] \<Rightarrow> None
      | e # _ \<Rightarrow> Some (Match (length l) (take (length r0 - length (right e)) r0) (caps e)))"

text \<open>\<^verbatim>\<open>re.match\<close> and \<^verbatim>\<open>re.search\<close>.\<close>

definition re_match :: "flags \<Rightarrow> regex \<Rightarrow> string \<Rightarrow> rematch option" where
  "re_match f r text = match_at f r [] text"

fun search_from :: "flags \<Rightarrow> regex \<Rightarrow> string \<Rightarrow> string \<Rightarrow> rematch option" where
  "search_from f r l [] = match_at f r l []"
| "search_from f r l (x # xs) =
     (case match_at f r l (x # xs) of
        Some m \<Rightarrow> Some m
      | None \<Rightarrow> search_from f r (x # l) xs)"

definition re_search :: "flags \<Rightarrow> regex \<Rightarrow> string \<Rightarrow> rematch option" where
  "re_search f r text = search_from f r [] text"

text \<open>
  The scans of \<^verbatim>\<open>re.finditer\<close>, \<^verbatim>\<open>re.sub\<close> and \<^verbatim>\<open>re.split\<close> go through the subject from
  left to right; after a match of \<open>n > 0\<close> characters the next \<open>n - 1\<close> positions are
  skipped (\<open>skip\<close>), so matches do not overlap.  No pattern of the module matches the
  empty string; an empty match is taken where it is found and the scan moves on by one
  character.
\<close>

fun finditer_from :: "flags \<Rightarrow> regex \<Rightarrow> string \<Rightarrow> string \<Rightarrow> nat \<Rightarrow> rematch list" where
  "finditer_from f r l [] skip =
     (if skip = 0 then (case match_at f r l [] of Some m \<Rightarrow> [m] | None \<Rightarrow> []) else [])"
| "finditer_from f r l (x # xs) skip =
     (if skip > 0 then finditer_from f r (x # l) xs (skip - 1)
      else case match_at f r l (x # xs) of
             None \<Rightarrow> finditer_from f r (x # l) xs 0
           | Some m \<Rightarrow> m # finditer_from f r (x # l) xs (length (m_text m) - 1))"

definition re_finditer :: "flags \<Rightarrow> regex \<Rightarrow> string \<Rightarrow> rematch list" where
  "re_finditer f r text = finditer_from f r [] text 0"

fun sub_from :: "flags \<Rightarrow> regex \<Rightarrow> (rematch \<Rightarrow> string) \<Rightarrow> string \<Rightarrow> string \<Rightarrow> nat \<Rightarrow> string" where
  "sub_from f r repl l [] skip =
     (if skip = 0 then (case match_at f r l [] of Some m \<Rightarrow> repl m | None \<Rightarrow> []) else [])"
| "sub_from f r repl l (x # xs) skip =
     (if skip > 0 then sub_from f r repl (x # l) xs (skip - 1)
      else case match_at f r l (x # xs) of
             None \<Rightarrow> x # sub_from f r repl (x # l) xs 0
           | Some m \<Rightarrow>
               (if m_text m = [] then repl m @ x # sub_from f r repl (x # l) xs 0
                else repl m @ sub_from f r repl (x # l) xs (length (m_text m) - 1)))"

definition re_sub :: "flags \<Rightarrow> regex \<Rightarrow> (rematch \<Rightarrow> string) \<Rightarrow> string \<Rightarrow> string" where
  "re_sub f r repl text = sub_from f r repl [] text 0"

fun split_from :: "flags \<Rightarrow> regex \<Rightarrow> string \<Rightarrow> string \<Rightarrow> nat \<Rightarrow> string \<Rightarrow> string list" where
  "split_from f r l [] skip cur =
     (if skip = 0 then (case match_at f r l [] of Some m \<Rightarrow> [rev cur, []] | None \<Rightarrow> [rev cur])
      else [rev cur])"
| "split_from f r l (x # xs) skip cur =
     (if skip > 0 then split_from f r (x # l) xs (skip - 1) cur
      else case match_at f r l (x # xs) of
             None \<Rightarrow> split_from f r (x # l) xs 0 (x # cur)
           | Some m \<Rightarrow>
               (if m_text m = [] then rev cur # split_from f r (x # l) xs 0 [x]
                else rev cur # split_from f r (x # l) xs (length (m_text m) - 1) []))"

definition re_split :: "flags \<Rightarrow> regex \<Rightarrow> string \<Rightarrow> string list" where
  "re_split f r text = split_from f r [] text 0 []"

section \<open>The sanitizer (\<^verbatim>\<open>sanitize_learning_path_text\<close>)\<close>

text \<open>The building blocks shared by the day-header patterns:
  \<^verbatim>\<open>Day\s+\d+\s*[:\-]\<close>.\<close>

definition sep_class :: cclass where
  "sep_class = Set [IChar CHR '':'', IChar CHR ''-'']"

definition day_header :: regex where
  "day_header =
     Seq (Str ''Day'') (Seq (Rep Space 1 True) (Seq (Rep Digit 1 True)
       (Seq (Rep Space 0 True) (Ch sep_class))))"

text \<open>\<^verbatim>\<open>```[\s\S]*?```\<close>\<close>

definition fence_re :: regex where
  "fence_re = Seq (Str ''```'') (Seq (Rep (Set [ISpace, INonSpace]) 0 False) (Str ''```''))"

text \<open>\<^verbatim>\<open>Error:\s*ToolException\([\s\S]*?\)\s*\<close>\<close>

definition tool_exception_re :: regex where
  "tool_exception_re =
     Seq (Str ''Error:'') (Seq (Rep Space 0 True) (Seq (Str ''ToolException('')
       (Seq (Rep (Set [ISpace, INonSpace]) 0 False) (Seq (Str '')'') (Rep Space 0 True)))))"

text \<open>\<^verbatim>\<open>\{\s*\"data\"\s*:\s*\{[\s\S]*?\}\s*\}\s*\<close>\<close>

definition data_json_re :: regex where
  "data_json_re =
     Seq (Str ''{'') (Seq (Rep Space 0 True) (Seq (Str [CHR 0x22, CHR ''d'', CHR ''a'', CHR ''t'', CHR ''a'', CHR 0x22])
       (Seq (Rep Space 0 True) (Seq (Str '':'') (Seq (Rep Space 0 True) (Seq (Str ''{'')
       (Seq (Rep (Set [ISpace, INonSpace]) 0 False) (Seq (Str ''}'') (Seq (Rep Space 0 True)
       (Seq (Str ''}'') (Rep Space 0 True)))))))))))"

text \<open>\<^verbatim>\<open>^(Thought|Action|Observation)\s*:?\<close>\<close>

definition trace_re :: regex where
  "trace_re =
     Seq Bol (Seq (Grp 1 (Alt (Str ''Thought'') (Alt (Str ''Action'') (Str ''Observation''))))
       (Seq (Rep Space 0 True) (Opt (Str '':''))))"

text \<open>\<^verbatim>\<open>(^|\n)\s*Day\s+\d+\s*[:\-]\<close>\<close>

definition first_day_re :: regex where
  "first_day_re =
     Seq (Grp 1 (Alt Bol (Str [CHR 0x0A]))) (Seq (Rep Space 0 True) day_header)"

text \<open>The body of the loop over the lines: \<open>None\<close> is \<^verbatim>\<open>continue\<close> without an
  append.\<close>

definition keep_line :: "string \<Rightarrow> string option" where
  "keep_line ln =
     (let s = strip ln in
      if s = [] then Some []
      else if re_match flags_i trace_re s \<noteq> None then None
      else if startswith s ''{'' \<and> endswith s ''}'' then None
      else Some ln)"

definition strip_spans :: "string \<Rightarrow> string" where
  "strip_spans text =
     re_sub no_flags data_json_re (\<lambda>_. [])
       (re_sub flags_i tool_exception_re (\<lambda>_. [])
         (re_sub no_flags fence_re (\<lambda>_. []) text))"

definition clean_lines :: "string \<Rightarrow> string" where
  "clean_lines text = strip (join [CHR 0x0A] (List.map_filter keep_line (splitlines text)))"

definition keep_from_first_day :: "string \<Rightarrow> string" where
  "keep_from_first_day cleaned =
     (case re_search flags_i first_day_re cleaned of
        Some m \<Rightarrow>
          (let start = (if m_start m > 0 then m_start m else 0);
               head = splitlines (strip (take start cleaned));
               title = (if head \<noteq> [] then join [CHR 0x0A] (last2 head) else []);
               body = strip (drop start cleaned)
           in if title \<noteq> [] then strip (title @ [CHR 0x0A, CHR 0x0A] @ body) else body)
      | None \<Rightarrow> cleaned)"

definition sanitize_learning_path_text :: "string \<Rightarrow> string" where
  "sanitize_learning_path_text text =
     (if text = [] then []
      else keep_from_first_day (clean_lines (strip_spans text)))"

section \<open>The extractor (\<^verbatim>\<open>extract_days_and_questions\<close>)\<close>

text \<open>A returned dict; the local variables \<^verbatim>\<open>day_title\<close>, \<^verbatim>\<open>topic\<close>, \<^verbatim>\<open>video_link\<close> and
  \<^verbatim>\<open>questions\<close> of the source are \<open>title\<close>, \<open>tp\<close>, \<open>link\<close> and \<open>qs\<close> below.\<close>

record day_item =
  day_title :: string
  topic :: string
  video_link :: string
  questions :: "string list"

text \<open>\<^verbatim>\<open>\s+(Day\s+\d+\s*[:\-])\<close>, replaced by \<^verbatim>\<open>\n\1\<close>\<close>

definition canon_re :: regex where
  "canon_re = Seq (Rep Space 1 True) (Grp 1 day_header)"

text \<open>\<^verbatim>\<open>\n(?=\s*Day\s+\d+\s*[:\-])\<close>\<close>

definition split_re :: regex where
  "split_re = Seq (Str [CHR 0x0A]) (Look (Seq (Rep Space 0 True) day_header))"

text \<open>\<^verbatim>\<open>^Day\s+\d+\s*[:\-]\<close>\<close>

definition block_re :: regex where
  "block_re = Seq Bol day_header"

text \<open>\<^verbatim>\<open>^(Day\s+\d+\s*[:\-]\s*)(.*)$\<close>\<close>

definition title_re :: regex where
  "title_re =
     Seq Bol (Seq (Grp 1 (Seq day_header (Rep Space 0 True))) (Seq (Grp 2 (Rep Dot 0 True)) Eol))"

text \<open>\<^verbatim>\<open>Topic\s*:\s*([^\n]+)\<close>\<close>

definition topic_re :: regex where
  "topic_re =
     Seq (Str ''Topic'') (Seq (Rep Space 0 True) (Seq (Str '':'') (Seq (Rep Space 0 True)
       (Grp 1 (Rep (NotSet [IChar CHR 0x0A]) 1 True)))))"

text \<open>\<^verbatim>\<open>https?://\S+\<close>\<close>

definition url_re :: regex where
  "url_re = Seq (Str ''http'') (Seq (Opt (Str ''s'')) (Seq (Str ''://'') (Rep NonSpace 1 True)))"

text \<open>\<^verbatim>\<open>YouTube\s*Link(?:\s*\d+)?\s*:?\s*(https?://\S+)\<close>\<close>

definition youtube_link_re :: regex where
  "youtube_link_re =
     Seq (Str ''YouTube'') (Seq (Rep Space 0 True) (Seq (Str ''Link'')
       (Seq (Opt (Seq (Rep Space 0 True) (Rep Digit 1 True)))
       (Seq (Rep Space 0 True) (Seq (Opt (Str '':'')) (Seq (Rep Space 0 True) (Grp 1 url_re)))))))"

text \<open>\<^verbatim>\<open>Practice\s*Questions\s*\(\s*10\s*\)\s*:?\s*(.*)$\<close>\<close>

definition questions_re :: regex where
  "questions_re =
     Seq (Str ''Practice'') (Seq (Rep Space 0 True) (Seq (Str ''Questions'') (Seq (Rep Space 0 True)
       (Seq (Str ''('') (Seq (Rep Space 0 True) (Seq (Str ''10'') (Seq (Rep Space 0 True)
       (Seq (Str '')'') (Seq (Rep Space 0 True) (Seq (Opt (Str '':'')) (Seq (Rep Space 0 True)
       (Seq (Grp 1 (Rep Dot 0 True)) Eol))))))))))))"

text \<open>\<^verbatim>\<open>^\d+\.?\s*\<close>\<close>

definition numbering_re :: regex where
  "numbering_re = Seq Bol (Seq (Rep Digit 1 True) (Seq (Opt (Str ''.'')) (Rep Space 0 True)))"

text \<open>\<^verbatim>\<open>(?im)^\s*Day\s+\d+\s*[:\-]?.*$\<close>\<close>

definition header_re :: regex where
  "header_re =
     Seq Bol (Seq (Rep Space 0 True) (Seq (Str ''Day'') (Seq (Rep Space 1 True)
       (Seq (Rep Digit 1 True) (Seq (Rep Space 0 True) (Seq (Opt (Ch sep_class))
       (Seq (Rep Dot 0 True) Eol)))))))"

definition search_url :: "string \<Rightarrow> string" where
  "search_url tp =
     ''https://www.youtube.com/results?search_query='' @ quote_plus (tp @ '' tutorial'')"

definition generic_url :: string where
  "generic_url = ''https://www.youtube.com/''"

text \<open>The placeholder fix: a link that contains \<^verbatim>\<open>VIDEO_ID_HERE\<close> is replaced.\<close>

definition fix_placeholder :: "string \<Rightarrow> string \<Rightarrow> string" where
  "fix_placeholder tp link =
     (if contains ''VIDEO_ID_HERE'' link
      then (if tp \<noteq> [] then search_url tp else generic_url)
      else link)"

text \<open>The last step: a link that is still empty is synthesized.\<close>

definition link_or_search :: "string \<Rightarrow> string \<Rightarrow> string" where
  "link_or_search tp link =
     (if link = [] \<and> tp \<noteq> [] then search_url tp
      else if link = [] then generic_url
      else link)"

text \<open>The loop over the lines of the questions section.\<close>

definition clean_question :: "string \<Rightarrow> string" where
  "clean_question line = re_sub no_flags numbering_re (\<lambda>_. []) (strip_chars [CHR '' '', CHR ''-'', CHR 0x09] line)"

definition question_lines :: "string \<Rightarrow> string list" where
  "question_lines q_text = filter (\<lambda>line. line \<noteq> []) (map clean_question (splitlines q_text))"

definition find_topic :: "string \<Rightarrow> string" where
  "find_topic s = (case re_search flags_i topic_re s of Some m \<Rightarrow> strip (group m 1) | None \<Rightarrow> [])"

text \<open>The link of the primary parser: the labelled one, else the first URL, else empty.\<close>

definition find_link :: "string \<Rightarrow> string" where
  "find_link rest =
     (case re_search flags_i youtube_link_re rest of
        Some m \<Rightarrow> strip (group m 1)
      | None \<Rightarrow> (case re_search no_flags url_re rest of Some m \<Rightarrow> group m 0 | None \<Rightarrow> []))"

text \<open>What the primary parser takes from the match of the title pattern on a block:
  \<^verbatim>\<open>day_title\<close> and \<^verbatim>\<open>rest\<close>.\<close>

definition block_title :: "string \<Rightarrow> string" where
  "block_title block =
     (case re_match flags_i title_re block of Some m \<Rightarrow> strip (group m 1) | None \<Rightarrow> ''Day'')"

definition block_rest :: "string \<Rightarrow> string" where
  "block_rest block =
     (case re_match flags_i title_re block of Some m \<Rightarrow> strip (group m 2) | None \<Rightarrow> block)"

text \<open>The text after the label \<^verbatim>\<open>Practice Questions (10)\<close>: \<^verbatim>\<open>q_section_match.group(1)\<close>.\<close>

definition questions_section :: "string \<Rightarrow> string option" where
  "questions_section s = map_option (\<lambda>m. group m 1) (re_search flags_is questions_re s)"

text \<open>The body of the primary loop; \<open>None\<close> is \<^verbatim>\<open>continue\<close>.\<close>

definition primary_item :: "string \<Rightarrow> day_item option" where
  "primary_item block0 =
     (let block = strip block0 in
      if block = [] \<or> re_match flags_i block_re block = None then None
      else
        let title = block_title block;
            rest = block_rest block;
            tp = find_topic rest;
            link = fix_placeholder tp (find_link rest);
            qs = (case questions_section rest of
                    Some q_text \<Rightarrow> question_lines (strip q_text)
                  | None \<Rightarrow> []);
            link = link_or_search tp link
        in Some \<lparr>day_title = title, topic = tp, video_link = link,
                 questions = (if qs \<noteq> [] then take 10 qs else [])\<rparr>)"

definition primary :: "string \<Rightarrow> day_item list" where
  "primary text =
     (let canon = re_sub flags_i canon_re (\<lambda>m. CHR 0x0A # group m 1) text;
          day_blocks = re_split flags_i split_re canon
      in List.map_filter primary_item day_blocks)"

text \<open>The fallback parser: the blocks run from the start of a header match to the start
  of the next (or to the end of the text).\<close>

definition fallback_blocks :: "string \<Rightarrow> (nat \<times> nat) list" where
  "fallback_blocks text =
     (let starts = map m_start (re_finditer flags_im header_re text)
      in zip starts (tl starts @ [length text]))"

text \<open>\<^verbatim>\<open>block.splitlines()[0] if block else "Day"\<close>; the index raises on an empty
  list.\<close>

definition first_line :: "string \<Rightarrow> error + string" where
  "first_line block =
     (if block \<noteq> [] then (case splitlines block of [] \<Rightarrow> Inl IndexError | l # _ \<Rightarrow> Inr l)
      else Inr ''Day'')"

definition fallback_block :: "string \<Rightarrow> nat \<times> nat \<Rightarrow> string" where
  "fallback_block text se = strip (take (snd se - fst se) (drop (fst se) text))"

definition fallback_link :: "string \<Rightarrow> string" where
  "fallback_link block =
     (case re_search no_flags url_re block of Some m \<Rightarrow> group m 0 | None \<Rightarrow> [])"

definition fallback_item :: "string \<Rightarrow> error + day_item" where
  "fallback_item block =
     (case first_line block of
        Inl e \<Rightarrow> Inl e
      | Inr header_line \<Rightarrow>
          let title = strip (before_first ''Topic:'' header_line);
              tp = find_topic block;
              link = fix_placeholder tp (fallback_link block);
              qs = (case questions_section block of
                      Some q_text \<Rightarrow> question_lines q_text
                    | None \<Rightarrow> []);
              link = link_or_search tp link
          in Inr \<lparr>day_title = (if title \<noteq> [] then title else ''Day''), topic = tp,
                  video_link = link, questions = take 10 qs\<rparr>)"

text \<open>Running the loop: the first exception ends it.\<close>

fun collect :: "('a \<Rightarrow> error + 'b) \<Rightarrow> 'a list \<Rightarrow> error + 'b list" where
  "collect g [] = Inr []"
| "collect g (x # xs) =
     (case g x of
        Inl e \<Rightarrow> Inl e
      | Inr y \<Rightarrow> (case collect g xs of Inl e \<Rightarrow> Inl e | Inr ys \<Rightarrow> Inr (y # ys)))"

definition fallback :: "string \<Rightarrow> error + day_item list" where
  "fallback text = collect fallback_item (map (fallback_block text) (fallback_blocks text))"

definition extract_days_and_questions :: "string \<Rightarrow> error + day_item list" where
  "extract_days_and_questions text =
     (if text = [] then Inr []
      else let results = primary text
           in if results \<noteq> [] then Inr results else fallback text)"

section \<open>Example texts\<close>







definition sentinel_url :: string where
  "sentinel_url = ''https://www.youtube.com/results?search_query=VIDEO_ID_HERE+tutorial''"

definition sentinel_topic_block :: string where
  "sentinel_topic_block = ''Day 1: Topic: VIDEO_ID_HERE\<newline>'' @ sentinel_url"

definition placeholder_block :: string where
  "placeholder_block = ''Day 1: https://youtu.be/VIDEO_ID_HERE\<newline>Topic: Trees''"

definition placeholder_unmarked :: string where
  "placeholder_unmarked = ''Day 1 https://youtu.be/VIDEO_ID_HERE''"

definition nested_data :: string where
  "nested_data = ''{'' @ [CHR 0x22] @ ''da{'' @ [CHR 0x22] @ ''data'' @ [CHR 0x22] @ '':{}}ta''
     @ [CHR 0x22] @ '':{}} z''"

definition data_z :: string where
  "data_z = ''{'' @ [CHR 0x22] @ ''data'' @ [CHR 0x22] @ '':{}} z''"



definition recursion_block :: string where
  "recursion_block = ''Day 1: Topic: Recursion''"

definition review_unmarked :: string where
  "review_unmarked = ''Day 2 Review''"

definition recursion_url :: string where
  "recursion_url = ''https://www.youtube.com/results?search_query=Recursion+tutorial''"

section \<open>Properties of the persistence functions\<close>

lemma nat_of_digits_append: "nat_of_digits acc (xs @ ys) = nat_of_digits (nat_of_digits acc xs) ys"
  by (induction xs arbitrary: acc) auto

lemma digit_char_code: "d < 10 \<Longrightarrow> (of_char (digit_char d) :: nat) = 48 + d"
  by (simp add: digit_char_def)

lemma digit_char_val: "d < 10 \<Longrightarrow> (of_char (digit_char d) :: nat) - 48 = d"
  by (simp add: digit_char_code)

lemma nat_of_digits_str_nat: "nat_of_digits 0 (str_nat n) = n"
proof (induction n rule: str_nat.induct)
  case (1 n)
  show ?case
  proof (cases "n < 10")
    case True
    then show ?thesis by (subst str_nat.simps) (simp add: digit_char_val)
  next
    case False
    then have "nat_of_digits 0 (str_nat (n div 10)) = n div 10" using 1 by simp
    with False show ?thesis
      by (subst str_nat.simps) (simp add: nat_of_digits_append digit_char_val)
  qed
qed

lemma str_nat_inj: "str_nat a = str_nat b \<Longrightarrow> a = b"
  by (metis nat_of_digits_str_nat)

lemma digit_char_no_minus: "d < 10 \<Longrightarrow> digit_char d \<noteq> CHR ''-''"
proof
  assume d: "d < 10" and e: "digit_char d = CHR ''-''"
  have "(of_char (digit_char d) :: nat) = 48 + d" using d by (rule digit_char_code)
  with e show False by simp
qed

lemma str_nat_no_minus: "hd (str_nat n) \<noteq> CHR ''-''"
proof (induction n rule: str_nat.induct)
  case (1 n)
  show ?case
  proof (cases "n < 10")
    case True
    then show ?thesis by (subst str_nat.simps) (simp add: digit_char_no_minus)
  next
    case False
    have ne: "str_nat (n div 10) \<noteq> []" by (subst str_nat.simps) simp
    with False 1 show ?thesis
      by (subst str_nat.simps) (simp add: hd_append)
  qed
qed

lemma str_int_inj: "str_int a = str_int b \<Longrightarrow> a = b"
  unfolding str_int_def
  by (auto split: if_splits dest: str_nat_inj) (metis list.sel(1) str_nat_no_minus)+

lemma progress_file_inj:
  "progress_file p1 g = progress_file p2 g \<Longrightarrow> str_hash p1 g = str_hash p2 g"
  by (auto simp: progress_file_def path_join_def dest: str_int_inj)

lemma ensure_data_dir_ok:
  "data_dir w \<or> mkdir_ok w \<Longrightarrow> \<exists>w1. ensure_data_dir w = Inr w1 \<and> data_dir w1
      \<and> write_fault w1 = write_fault w \<and> read_fault w1 = read_fault w"
  by (auto simp: ensure_data_dir_def)

lemma ensure_data_dir_idle: "data_dir w \<Longrightarrow> ensure_data_dir w = Inr w"
  by (simp add: ensure_data_dir_def)

lemma progress_round_trip_same_process:
  assumes "data_dir w \<or> mkdir_ok w"
    and "write_fault w (progress_file p g) = NoFault"
    and "\<not> read_fault w (progress_file p g)"
  shows "\<exists>w1. save_progress p w g r = Inr w1 \<and> load_progress p w1 g = Inr (w1, r)"
  using assms
  by (auto simp: save_progress_def load_progress_def ensure_data_dir_def write_json_def
      isfile_def read_json_def)

text \<open>
  Claim C1.  Progress saved for a goal is read back for the same goal, also by another
  process.  Within one process the round trip holds (lemma
  \<open>progress_round_trip_same_process\<close>).  The file name is built from \<^verbatim>\<open>hash(user_goal)\<close>,
  and whenever the process that loads gives the goal a hash other than the one of the
  process that saved, the load looks at a file that does not exist and returns the empty
  dict: the saved record is not found.
\<close>

theorem progress_lost_across_restart:
  assumes "str_hash p1 g \<noteq> str_hash p2 g"
    and "data_dir w" and "files w = Map.empty"
    and "write_fault w (progress_file p1 g) = NoFault"
  shows "\<exists>w1. save_progress p1 w g r = Inr w1 \<and> load_progress p2 w1 g = Inr (w1, JObj [])"
proof -
  have ne: "progress_file p1 g \<noteq> progress_file p2 g"
    using assms(1) progress_file_inj by blast
  show ?thesis
    using assms(2-4) ne
    by (auto simp: save_progress_def load_progress_def ensure_data_dir_def write_json_def
        isfile_def)
qed

text \<open>
  The theorem at the goal \<open>''learn python''\<close>, saved by a process that hashes it to 7
  and loaded by one that hashes it to -3.
\<close>

theorem progress_lost_across_restart_witness:
  "\<exists>w1. save_progress \<lparr>str_hash = (\<lambda>_. 7)\<rparr> fresh_world ''learn python'' day1_done = Inr w1
     \<and> load_progress \<lparr>str_hash = (\<lambda>_. - 3)\<rparr> w1 ''learn python'' = Inr (w1, JObj [])
     \<and> JObj [] \<noteq> day1_done"
  using progress_lost_across_restart [of "\<lparr>str_hash = (\<lambda>_. 7)\<rparr>" "''learn python''"
      "\<lparr>str_hash = (\<lambda>_. - 3)\<rparr>" fresh_world day1_done]
  by (simp add: fresh_world_def day1_done_def)

lemma load_history_world:
  assumes "load_history w = Inr (w0, h)"
  shows "data_dir w0" and "write_fault w0 = write_fault w" and "read_fault w0 = read_fault w"
    and "ensure_data_dir w = Inr w0"
  using assms
  by (auto simp: load_history_def ensure_data_dir_def split: if_splits option.splits)

lemma save_history_record_appends:
  assumes "write_fault w HISTORY_PATH = NoFault"
    and "load_history w = Inr (w0, JList rs)"
  shows "save_history_record w a =
           (w0\<lparr>files := (files w0)(HISTORY_PATH \<mapsto> Valid (JList (rs @ [a])))\<rparr>, None)"
proof -
  have e: "ensure_data_dir w = Inr w0" and d: "data_dir w0"
    and wf: "write_fault w0 = write_fault w"
    using load_history_world [OF assms(2)] by simp_all
  have "load_history w0 = Inr (w0, JList rs)"
    using assms(2) e d by (simp add: load_history_def ensure_data_dir_def)
  then show ?thesis
    using e wf assms(1)
    by (simp add: save_history_record_def append_record_def write_json_def)
qed

lemma load_history_written:
  assumes "data_dir w0" and "\<not> read_fault w0 HISTORY_PATH"
  shows "load_history (w0\<lparr>files := (files w0)(HISTORY_PATH \<mapsto> Valid v)\<rparr>)
           = Inr (w0\<lparr>files := (files w0)(HISTORY_PATH \<mapsto> Valid v)\<rparr>, v)"
  using assms
  by (simp add: load_history_def ensure_data_dir_def isfile_def read_json_def)

text \<open>
  Claim C9, as stated, quantifies over every starting state of the history.  It fails
  when the history file can be written but cannot be opened for reading: each
  \<^verbatim>\<open>save_history_record\<close> then loads the empty list, writes a one-element list and
  returns normally, and \<^verbatim>\<open>load_history()\<close> returns the empty list afterwards.
\<close>

theorem history_append_order_counterexample:
  "save_history_record (write_only_world (JList [rec_old])) rec_a
     = (write_only_world (JList [rec_a]), None)
   \<and> save_history_record (write_only_world (JList [rec_a])) rec_b
     = (write_only_world (JList [rec_b]), None)
   \<and> load_history (write_only_world (JList [rec_b]))
     = Inr (write_only_world (JList [rec_b]), JList [])"
  by (simp add: save_history_record_def load_history_def ensure_data_dir_def isfile_def
      read_json_def append_record_def write_json_def write_only_world_def fresh_world_def)

text \<open>
  Claim C9, amended.  In every starting state in which the data directory exists or can be
  created, the history file can be written, can be opened for reading, and loads as a list
  \<open>rs\<close> (the file is missing, does not parse, or holds a JSON list),
  \<^verbatim>\<open>save_history_record(a)\<close> and then \<^verbatim>\<open>save_history_record(b)\<close> both return normally, and
  \<^verbatim>\<open>load_history()\<close> afterwards returns \<open>rs\<close> followed by \<open>a\<close> and then \<open>b\<close>.
\<close>

theorem history_append_order:
  assumes "data_dir w \<or> mkdir_ok w"
    and "write_fault w HISTORY_PATH = NoFault"
    and "\<not> read_fault w HISTORY_PATH"
    and "load_history w = Inr (w0, JList rs)"
  shows "\<exists>w1 w2. save_history_record w a = (w1, None)
           \<and> save_history_record w1 b = (w2, None)
           \<and> load_history w2 = Inr (w2, JList (rs @ [a, b]))"
proof -
  define w1 where "w1 = w0\<lparr>files := (files w0)(HISTORY_PATH \<mapsto> Valid (JList (rs @ [a])))\<rparr>"
  define w2 where "w2 = w1\<lparr>files := (files w1)(HISTORY_PATH \<mapsto> Valid (JList ((rs @ [a]) @ [b])))\<rparr>"
  have d0: "data_dir w0" and wf0: "write_fault w0 = write_fault w"
    and rf0: "read_fault w0 = read_fault w"
    using load_history_world [OF assms(4)] by simp_all
  have s1: "save_history_record w a = (w1, None)"
    unfolding w1_def using assms(2,4) by (rule save_history_record_appends)
  have l1: "load_history w1 = Inr (w1, JList (rs @ [a]))"
    unfolding w1_def using d0 rf0 assms(3) by (intro load_history_written) simp_all
  have wf1: "write_fault w1 HISTORY_PATH = NoFault"
    using wf0 assms(2) by (simp add: w1_def)
  have s2: "save_history_record w1 b = (w2, None)"
    unfolding w2_def using wf1 l1 by (rule save_history_record_appends)
  have "data_dir w1" and "\<not> read_fault w1 HISTORY_PATH"
    using d0 rf0 assms(3) by (simp_all add: w1_def)
  then have "load_history w2 = Inr (w2, JList ((rs @ [a]) @ [b]))"
    unfolding w2_def by (rule load_history_written)
  with s1 s2 show ?thesis by auto
qed

text \<open>
  The theorem on a history file that holds one record: the two calls return normally and
  leave the three records in the file, in the order in which they were saved.
\<close>

theorem history_append_order_witness:
  "\<exists>w1 w2. save_history_record (hist_file (JList [rec_old])) rec_a = (w1, None)
      \<and> save_history_record w1 rec_b = (w2, None)
      \<and> load_history w2 = Inr (w2, JList [rec_old, rec_a, rec_b])"
  using history_append_order [of "hist_file (JList [rec_old])" "hist_file (JList [rec_old])"
      "[rec_old]" rec_a rec_b]
  by (simp add: hist_file_def fresh_world_def load_history_def ensure_data_dir_def isfile_def
      read_json_def)

text \<open>
  Claim C10.  When the history file exists and either cannot be read or does not hold
  valid JSON, and the write goes through, \<^verbatim>\<open>save_history_record(r)\<close> returns without an
  error and leaves the file holding the one-element list \<open>[r]\<close>: whatever the file held
  before is gone.
\<close>

theorem corrupt_history_replaced:
  assumes "isfile w HISTORY_PATH"
    and "read_fault w HISTORY_PATH \<or> files w HISTORY_PATH = Some Corrupt"
    and "write_fault w HISTORY_PATH = NoFault"
  shows "save_history_record w r =
           (w\<lparr>files := (files w)(HISTORY_PATH \<mapsto> Valid (JList [r]))\<rparr>, None)"
  using assms
  by (auto simp: save_history_record_def load_history_def ensure_data_dir_def isfile_def
      read_json_def append_record_def write_json_def)

text \<open>
  The theorem on a history file whose text does not parse.
\<close>

theorem corrupt_history_replaced_witness:
  "isfile (fresh_world\<lparr>files := [HISTORY_PATH \<mapsto> Corrupt]\<rparr>) HISTORY_PATH
   \<and> save_history_record (fresh_world\<lparr>files := [HISTORY_PATH \<mapsto> Corrupt]\<rparr>) rec_a
       = (hist_file (JList [rec_a]), None)"
  using corrupt_history_replaced [of "fresh_world\<lparr>files := [HISTORY_PATH \<mapsto> Corrupt]\<rparr>" rec_a]
  by (simp add: fresh_world_def isfile_def hist_file_def)

text \<open>
  Claim C5.  When the write of the file fails (the open or the dump raises),
  \<^verbatim>\<open>save_progress\<close> returns normally, while \<^verbatim>\<open>save_history_record\<close> ends with an
  exception; it is the \<^verbatim>\<open>OSError\<close> of the write whenever the history could be loaded
  as a list.
\<close>

theorem write_failure_asymmetry:
  assumes "data_dir w \<or> mkdir_ok w"
    and "write_fault w (progress_file p g) \<noteq> NoFault"
    and "write_fault w HISTORY_PATH \<noteq> NoFault"
  shows "(\<exists>w1. save_progress p w g r = Inr w1) \<and> snd (save_history_record w record) \<noteq> None
     \<and> ((\<exists>w0 rs. load_history w = Inr (w0, JList rs))
          \<longrightarrow> snd (save_history_record w record) = Some OSError)"
  using assms
  by (auto simp: save_progress_def save_history_record_def load_history_def ensure_data_dir_def
      write_json_def append_record_def isfile_def
      split: fault.splits sum.splits json.splits option.splits prod.splits bool.splits if_splits)

text \<open>
  The theorem in a world where every open for writing fails.
\<close>

theorem write_failure_asymmetry_witness:
  "(\<exists>w1. save_progress \<lparr>str_hash = (\<lambda>_. 7)\<rparr> read_only_world ''learn python'' day1_done = Inr w1)
   \<and> snd (save_history_record read_only_world rec_a) = Some OSError"
  using write_failure_asymmetry [of read_only_world "\<lparr>str_hash = (\<lambda>_. 7)\<rparr>" "''learn python''"
      day1_done rec_a]
  by (simp add: read_only_world_def fresh_world_def load_history_def ensure_data_dir_def isfile_def)

section \<open>Facts about the string functions\<close>

lemma startswith_Cons [simp]:
  "startswith (x # xs) (t # ts) \<longleftrightarrow> x = t \<and> startswith xs ts"
  by (simp add: startswith_def)

lemma startswith_Nil [simp]: "startswith xs []" "startswith [] (t # ts) = False"
  by (simp_all add: startswith_def)

lemma contains_Nil [simp]: "contains [] xs"
  by (cases xs) simp_all

lemma startswith_before_foreign:
  "c \<notin> set ts \<Longrightarrow> startswith (xs @ c # ys) ts \<Longrightarrow> startswith xs ts"
proof (induction xs arbitrary: ts)
  case Nil
  then show ?case by (cases ts) auto
next
  case (Cons x xs)
  then show ?case by (cases ts) auto
qed

lemma contains_split_foreign:
  "c \<notin> set ts \<Longrightarrow> contains ts (xs @ c # ys) \<Longrightarrow> contains ts xs \<or> contains ts ys"
proof (induction xs)
  case Nil
  then show ?case by (cases ts) auto
next
  case (Cons x xs)
  then show ?case
    using startswith_before_foreign [of c ts "x # xs" ys] by auto
qed

lemma contains_skip_prefix:
  "t \<notin> set p \<Longrightarrow> contains (t # ts) (p @ s) \<Longrightarrow> contains (t # ts) s"
  by (induction p) auto

lemma hex_digit_code:
  "d < 16 \<Longrightarrow> (of_char (hex_digit d) :: nat) = (if d < 10 then 48 + d else 55 + d)"
  by (simp add: hex_digit_def)

lemma percent_chars:
  assumes "b < 256" and "x \<in> set (percent b)"
  shows "x = CHR ''%'' \<or> (\<exists>d<16. x = hex_digit d)"
proof -
  have d: "b div 16 < 16" using assms(1) by auto
  have m: "b mod 16 < 16" by auto
  from assms(2) have "x = CHR ''%'' \<or> x = hex_digit (b div 16) \<or> x = hex_digit (b mod 16)"
    by (simp add: percent_def)
  with d m show ?thesis by blast
qed

lemma quote_char_unreserved: "is_unreserved c \<Longrightarrow> quote_char c = [c]"
  by (simp add: quote_char_def Let_def)

lemma quote_char_escaped_hd:
  "\<not> is_unreserved c \<Longrightarrow> \<exists>x xs. quote_char c = x # xs \<and> (x = CHR ''+'' \<or> x = CHR ''%'')"
  by (simp add: quote_char_def Let_def percent_def)

lemma quote_char_escaped_chars:
  assumes "\<not> is_unreserved c" and "x \<in> set (quote_char c)"
  shows "x = CHR ''+'' \<or> x = CHR ''%'' \<or> (\<exists>d<16. x = hex_digit d)"
proof -
  have lt: "(of_char c :: nat) < 256" by simp
  have "(of_char c :: nat) div 64 \<le> 255 div 64" using lt by (intro div_le_mono) arith
  then have b1: "192 + (of_char c :: nat) div 64 < 256" by simp
  have b2: "128 + (of_char c :: nat) mod 64 < 256" by auto
  from assms show ?thesis
    using percent_chars [OF lt] percent_chars [OF b1] percent_chars [OF b2]
    by (auto simp: quote_char_def Let_def split: if_splits)
qed

lemma unreserved_not_escape:
  assumes "is_unreserved t" and "(70::nat) < of_char t"
  shows "t \<noteq> CHR ''+''" and "t \<noteq> CHR ''%''" and "d < 16 \<Longrightarrow> hex_digit d \<noteq> t"
proof -
  show "t \<noteq> CHR ''+''" "t \<noteq> CHR ''%''" using assms(2) by auto
  show "hex_digit d \<noteq> t" if "d < 16"
  proof
    assume "hex_digit d = t"
    then have "(of_char t :: nat) = (if d < 10 then 48 + d else 55 + d)"
      using hex_digit_code [OF that] by simp
    with that assms(2) show False by (simp split: if_splits)
  qed
qed

lemma startswith_quote_plus:
  "\<forall>c \<in> set ts. is_unreserved c \<Longrightarrow> startswith (quote_plus s) ts \<Longrightarrow> startswith s ts"
proof (induction ts arbitrary: s)
  case Nil
  show ?case by simp
next
  case (Cons t ts)
  have t: "is_unreserved t" using Cons.prems(1) by simp
  then have np: "t \<noteq> CHR ''+''" "t \<noteq> CHR ''%''" by (auto simp: is_unreserved_def)
  show ?case
  proof (cases s)
    case Nil
    with Cons.prems show ?thesis by (simp add: quote_plus_def)
  next
    case s: (Cons c s')
    have q: "quote_plus s = quote_char c @ quote_plus s'" by (simp add: quote_plus_def s)
    show ?thesis
    proof (cases "is_unreserved c")
      case True
      with Cons.prems q have "c = t" "startswith (quote_plus s') ts"
        by (simp_all add: quote_char_unreserved)
      with Cons.IH [of s'] Cons.prems(1) show ?thesis by (simp add: s)
    next
      case False
      from quote_char_escaped_hd [OF False] Cons.prems(2) q np show ?thesis by auto
    qed
  qed
qed

lemma contains_quote_plus:
  assumes "\<forall>c \<in> set (t # ts). is_unreserved c" and "(70::nat) < of_char t"
  shows "contains (t # ts) (quote_plus s) \<Longrightarrow> contains (t # ts) s"
proof (induction s)
  case Nil
  then show ?case by (simp add: quote_plus_def)
next
  case (Cons c s)
  have t: "is_unreserved t" using assms(1) by simp
  have q: "quote_plus (c # s) = quote_char c @ quote_plus s" by (simp add: quote_plus_def)
  show ?case
  proof (cases "is_unreserved c")
    case True
    from Cons.prems have "startswith (quote_plus (c # s)) (t # ts) \<or> contains (t # ts) (quote_plus s)"
      by (simp add: q quote_char_unreserved [OF True])
    then show ?thesis
    proof
      assume "startswith (quote_plus (c # s)) (t # ts)"
      then have "startswith (c # s) (t # ts)" using assms(1) startswith_quote_plus by blast
      then show ?thesis by simp
    next
      assume "contains (t # ts) (quote_plus s)"
      then show ?thesis using Cons.IH by simp
    qed
  next
    case False
    have nt: "t \<notin> set (quote_char c)"
      using quote_char_escaped_chars [OF False, of t] unreserved_not_escape [OF t assms(2)]
      by blast
    have "contains (t # ts) (quote_plus s)"
      using contains_skip_prefix [OF nt] Cons.prems unfolding q by blast
    then show ?thesis using Cons.IH by simp
  qed
qed

lemma search_url_keeps_out_sentinel:
  assumes "\<not> contains ''VIDEO_ID_HERE'' tp"
  shows "\<not> contains ''VIDEO_ID_HERE'' (search_url tp)"
proof
  assume "contains ''VIDEO_ID_HERE'' (search_url tp)"
  then have "contains ''VIDEO_ID_HERE'' (quote_plus (tp @ '' tutorial''))"
    unfolding search_url_def by (rule contains_skip_prefix [rotated]) simp
  then have "contains ''VIDEO_ID_HERE'' (tp @ '' tutorial'')"
    by (rule contains_quote_plus [rotated 2]) (simp_all add: is_unreserved_def)
  then have "contains ''VIDEO_ID_HERE'' tp \<or> contains ''VIDEO_ID_HERE'' ''tutorial''"
    using contains_split_foreign [of "CHR '' ''" "''VIDEO_ID_HERE''" tp "''tutorial''"] by simp
  with assms show False by simp
qed

lemma generic_url_no_sentinel: "\<not> contains ''VIDEO_ID_HERE'' generic_url"
  by (simp add: generic_url_def)

section \<open>The shape of the extractor's result\<close>

lemma splitlines_from_nonempty: "splitlines_from cur (x # xs) \<noteq> []"
  by (induction cur "x # xs" arbitrary: x xs rule: splitlines_from.induct) auto

lemma first_line_total: "\<exists>l. first_line block = Inr l"
proof (cases block)
  case Nil
  then show ?thesis by (simp add: first_line_def)
next
  case (Cons x xs)
  then have "splitlines block \<noteq> []"
    by (simp add: splitlines_def splitlines_from_nonempty)
  then show ?thesis
    by (auto simp: first_line_def split: list.splits)
qed

lemma fallback_item_total: "\<exists>item. fallback_item block = Inr item"
proof -
  obtain l where "first_line block = Inr l" using first_line_total by blast
  then show ?thesis by (simp add: fallback_item_def Let_def)
qed

lemma collect_total:
  assumes "\<And>x. \<exists>y. g x = Inr y"
  shows "\<exists>ys. collect g xs = Inr ys \<and> length ys = length xs"
proof (induction xs)
  case Nil
  show ?case by simp
next
  case (Cons x xs)
  obtain y where "g x = Inr y" using assms by blast
  with Cons show ?case by auto
qed

lemma collect_set:
  "collect g xs = Inr ys \<Longrightarrow> y \<in> set ys \<Longrightarrow> \<exists>x \<in> set xs. g x = Inr y"
  by (induction xs arbitrary: ys) (auto split: sum.splits)

lemma fallback_total:
  "\<exists>items. fallback text = Inr items \<and> length items = length (re_finditer flags_im header_re text)"
proof -
  obtain ys where "collect fallback_item (map (fallback_block text) (fallback_blocks text)) = Inr ys"
    and "length ys = length (map (fallback_block text) (fallback_blocks text))"
    using collect_total [of fallback_item, OF fallback_item_total] by blast
  moreover have "length (fallback_blocks text) = length (re_finditer flags_im header_re text)"
    by (cases "re_finditer flags_im header_re text") (simp_all add: fallback_blocks_def Let_def)
  ultimately show ?thesis by (simp add: fallback_def)
qed

lemma extract_total: "\<exists>items. extract_days_and_questions text = Inr items"
  using fallback_total [of "text"] by (auto simp: extract_days_and_questions_def Let_def)

lemma map_filter_set: "y \<in> set (List.map_filter g xs) \<Longrightarrow> \<exists>x \<in> set xs. g x = Some y"
  by (auto simp: List.map_filter_def)

lemma extract_item_origin:
  assumes "extract_days_and_questions text = Inr items" and "item \<in> set items"
  shows "(\<exists>b. primary_item b = Some item) \<or> (\<exists>b. fallback_item b = Inr item)"
proof (cases "text = [] \<or> primary text = []")
  case True
  with assms show ?thesis
    by (auto simp: extract_days_and_questions_def fallback_def Let_def dest: collect_set
        split: if_splits)
next
  case False
  with assms have "item \<in> set (primary text)"
    by (auto simp: extract_days_and_questions_def Let_def)
  then show ?thesis
    unfolding primary_def Let_def by (blast dest: map_filter_set)
qed

lemma primary_item_fields:
  assumes "primary_item b = Some item"
  shows "day_title item = block_title (strip b)"
    and "topic item = find_topic (block_rest (strip b))"
    and "video_link item = link_or_search (topic item)
           (fix_placeholder (topic item) (find_link (block_rest (strip b))))"
    and "questions item = take 10 (case questions_section (block_rest (strip b)) of
            Some q_text \<Rightarrow> question_lines (strip q_text) | None \<Rightarrow> [])"
  using assms by (auto simp: primary_item_def Let_def split: if_splits)

lemma fallback_item_fields:
  assumes "fallback_item b = Inr item"
  shows "topic item = find_topic b"
    and "video_link item = link_or_search (topic item)
           (fix_placeholder (topic item) (fallback_link b))"
    and "questions item = take 10 (case questions_section b of
            Some q_text \<Rightarrow> question_lines q_text | None \<Rightarrow> [])"
  using assms by (auto simp: fallback_item_def Let_def split: sum.splits)


lemma link_or_search_nonempty: "link_or_search tp link \<noteq> []"
  by (simp add: link_or_search_def search_url_def generic_url_def)

lemma video_link_nonempty:
  assumes "extract_days_and_questions text = Inr items" and "item \<in> set items"
  shows "video_link item \<noteq> []"
  using extract_item_origin [OF assms]
  by (auto simp: primary_item_fields(3) fallback_item_fields(2) link_or_search_nonempty)


lemma finditer_from_empty_iff:
  "finditer_from f r l s 0 = [] \<longleftrightarrow> search_from f r l s = None"
  by (induction s arbitrary: l) (auto split: option.splits)

lemma block_re_empty: "re_match flags_i block_re [] = None"
  by code_simp

lemma header_re_empty: "re_search flags_im header_re [] = None"
  by code_simp

lemma primary_item_value:
  assumes "re_match flags_i block_re (strip b) \<noteq> None"
  shows "primary_item b = Some \<lparr>day_title = block_title (strip b),
      topic = find_topic (block_rest (strip b)),
      video_link = link_or_search (find_topic (block_rest (strip b)))
        (fix_placeholder (find_topic (block_rest (strip b))) (find_link (block_rest (strip b)))),
      questions = take 10 (case questions_section (block_rest (strip b)) of
            Some q_text \<Rightarrow> question_lines (strip q_text) | None \<Rightarrow> [])\<rparr>"
proof -
  have "strip b \<noteq> []" using assms block_re_empty by auto
  with assms show ?thesis by (simp add: primary_item_def Let_def)
qed

lemma fallback_item_value:
  "\<exists>title. fallback_item b = Inr \<lparr>day_title = title,
      topic = find_topic b,
      video_link = link_or_search (find_topic b) (fix_placeholder (find_topic b) (fallback_link b)),
      questions = take 10 (case questions_section b of
            Some q_text \<Rightarrow> question_lines q_text | None \<Rightarrow> [])\<rparr>"
proof -
  obtain l where "first_line b = Inr l" using first_line_total by blast
  then show ?thesis by (simp add: fallback_item_def Let_def)
qed

lemma search_url_Recursion:
  "search_url ''Recursion'' = ''https://www.youtube.com/results?search_query=Recursion+tutorial''"
  by code_simp

lemma no_link_found:
  assumes "re_search flags_i youtube_link_re rest = None" and "re_search no_flags url_re rest = None"
  shows "find_link rest = []"
  using assms by (simp add: find_link_def)

lemma contains_sentinel_nonempty: "contains ''VIDEO_ID_HERE'' link \<Longrightarrow> link \<noteq> []"
  by auto

section \<open>Properties of the extractor\<close>

subsection \<open>Evaluations on the example texts\<close>


lemma recursion_block_header: "re_match flags_i block_re (strip recursion_block) \<noteq> None"
  by code_simp

lemma recursion_block_no_label:
  "re_search flags_i youtube_link_re (block_rest (strip recursion_block)) = None"
  by code_simp

lemma recursion_block_no_url:
  "re_search no_flags url_re (block_rest (strip recursion_block)) = None"
  by code_simp

lemma recursion_block_topic: "find_topic (block_rest (strip recursion_block)) = ''Recursion''"
  by code_simp

lemma review_unmarked_no_url: "re_search no_flags url_re review_unmarked = None"
  by code_simp

lemma review_unmarked_topic: "find_topic review_unmarked = []"
  by code_simp

lemma recursion_block_result:
  "extract_days_and_questions recursion_block = Inr [\<lparr>day_title = ''Day 1:'',
     topic = ''Recursion'', video_link = recursion_url, questions = []\<rparr>]"
  by code_simp

lemma review_unmarked_result:
  "extract_days_and_questions review_unmarked = Inr [\<lparr>day_title = ''Day 2 Review'',
     topic = [], video_link = ''https://www.youtube.com/'', questions = []\<rparr>]"
  by code_simp

lemma review_unmarked_header:
  "re_search flags_im header_re review_unmarked = Some (Match 0 ''Day 2 Review'' [])"
  by code_simp

lemma review_unmarked_primary: "primary review_unmarked = []"
  by code_simp









lemma placeholder_block_header: "re_match flags_i block_re (strip placeholder_block) \<noteq> None"
  by code_simp

lemma placeholder_block_link:
  "find_link (block_rest (strip placeholder_block)) = ''https://youtu.be/VIDEO_ID_HERE''"
  by code_simp

lemma placeholder_block_topic: "find_topic (block_rest (strip placeholder_block)) = ''Trees''"
  by code_simp

lemma placeholder_unmarked_link:
  "fallback_link placeholder_unmarked = ''https://youtu.be/VIDEO_ID_HERE''"
  by code_simp

lemma placeholder_unmarked_topic: "find_topic placeholder_unmarked = []"
  by code_simp

lemma search_url_Trees:
  "search_url ''Trees'' = ''https://www.youtube.com/results?search_query=Trees+tutorial''"
  by code_simp

subsection \<open>The claims\<close>

text \<open>
  Claim C2, as stated, fails: in \<^verbatim>\<open>xDay 1: y\<close> the day-header pattern occurs (at offset 1, not at
  the start of a line), the primary stage produces no block, and the fallback stage
  returns no item either, because its own header pattern is anchored at the start of a line.
\<close>

theorem fallback_unanchored_counterexample:
  "re_search flags_i day_header ''xDay 1: y'' = Some (Match 1 ''Day 1:'' [])
   \<and> primary ''xDay 1: y'' = []
   \<and> fallback ''xDay 1: y'' = Inr []
   \<and> extract_days_and_questions ''xDay 1: y'' = Inr []"
  by code_simp

text \<open>
  Claim C2, amended.  Whenever the header pattern of the fallback stage
  (\<^verbatim>\<open>(?im)^\s*Day\s+\d+\s*[:\-]?.*$\<close>: a line that begins, after optional whitespace, with
  \<^verbatim>\<open>Day\<close>, whitespace and digits, the separator being optional) matches somewhere in the
  text, the fallback stage returns one item for each match, so at least one; and when the
  primary stage has produced no block, that is the result of
  \<^verbatim>\<open>extract_days_and_questions\<close>.
\<close>

theorem fallback_recovers:
  assumes "re_search flags_im header_re text \<noteq> None"
  shows "\<exists>items. fallback text = Inr items \<and> items \<noteq> []
           \<and> length items = length (re_finditer flags_im header_re text)
           \<and> (primary text = [] \<longrightarrow> extract_days_and_questions text = Inr items)"
proof -
  have ne: "text \<noteq> []" using assms header_re_empty by auto
  have "re_finditer flags_im header_re text \<noteq> []"
    using assms by (simp add: re_finditer_def re_search_def finditer_from_empty_iff)
  moreover obtain items where "fallback text = Inr items"
    and "length items = length (re_finditer flags_im header_re text)"
    using fallback_total by blast
  ultimately show ?thesis
    using ne by (auto simp: extract_days_and_questions_def Let_def)
qed

text \<open>
  The theorem on \<^verbatim>\<open>Day 2 Review\<close>, a header without separator: the primary stage produces
  nothing and the fallback stage recovers the day.
\<close>

theorem fallback_recovers_witness:
  "primary review_unmarked = []
   \<and> (\<exists>items. fallback review_unmarked = Inr items \<and> items \<noteq> []
         \<and> length items = length (re_finditer flags_im header_re review_unmarked)
         \<and> extract_days_and_questions review_unmarked = Inr items)
   \<and> extract_days_and_questions review_unmarked = Inr [\<lparr>day_title = ''Day 2 Review'',
         topic = [], video_link = ''https://www.youtube.com/'', questions = []\<rparr>]"
  using fallback_recovers [of review_unmarked] review_unmarked_header review_unmarked_primary
    review_unmarked_result
  by simp





text \<open>
  Claim C7.  A block in which neither a labelled link nor any URL is found gets the
  search URL for \<^verbatim>\<open>Recursion tutorial\<close> when its topic is \<^verbatim>\<open>Recursion\<close>, and the generic
  URL when its topic is empty, in the primary parser and in the fallback parser; and in
  every result of \<^verbatim>\<open>extract_days_and_questions\<close> the link of every item is non-empty.
\<close>

theorem link_fallback:
  "(re_match flags_i block_re (strip b) \<noteq> None
      \<and> re_search flags_i youtube_link_re (block_rest (strip b)) = None
      \<and> re_search no_flags url_re (block_rest (strip b)) = None
    \<longrightarrow> (\<exists>item. primary_item b = Some item
          \<and> topic item = find_topic (block_rest (strip b))
          \<and> (topic item = ''Recursion'' \<longrightarrow> video_link item =
                ''https://www.youtube.com/results?search_query=Recursion+tutorial'')
          \<and> (topic item = [] \<longrightarrow> video_link item = ''https://www.youtube.com/'')))
   \<and> (re_search no_flags url_re fb = None
    \<longrightarrow> (\<exists>item. fallback_item fb = Inr item
          \<and> topic item = find_topic fb
          \<and> (topic item = ''Recursion'' \<longrightarrow> video_link item =
                ''https://www.youtube.com/results?search_query=Recursion+tutorial'')
          \<and> (topic item = [] \<longrightarrow> video_link item = ''https://www.youtube.com/'')))
   \<and> (\<exists>items. extract_days_and_questions text = Inr items
          \<and> (\<forall>item \<in> set items. video_link item \<noteq> []))"
proof (intro conjI impI)
  assume h: "re_match flags_i block_re (strip b) \<noteq> None
      \<and> re_search flags_i youtube_link_re (block_rest (strip b)) = None
      \<and> re_search no_flags url_re (block_rest (strip b)) = None"
  then have "find_link (block_rest (strip b)) = []" by (simp add: no_link_found)
  with h show "\<exists>item. primary_item b = Some item
          \<and> topic item = find_topic (block_rest (strip b))
          \<and> (topic item = ''Recursion'' \<longrightarrow> video_link item =
                ''https://www.youtube.com/results?search_query=Recursion+tutorial'')
          \<and> (topic item = [] \<longrightarrow> video_link item = ''https://www.youtube.com/'')"
    using search_url_Recursion
    by (simp add: primary_item_value fix_placeholder_def link_or_search_def generic_url_def)
next
  assume h: "re_search no_flags url_re fb = None"
  then have l: "fallback_link fb = []" by (simp add: fallback_link_def)
  obtain title where "fallback_item fb = Inr \<lparr>day_title = title,
      topic = find_topic fb,
      video_link = link_or_search (find_topic fb) (fix_placeholder (find_topic fb) (fallback_link fb)),
      questions = take 10 (case questions_section fb of
            Some q_text \<Rightarrow> question_lines q_text | None \<Rightarrow> [])\<rparr>"
    using fallback_item_value by blast
  with l show "\<exists>item. fallback_item fb = Inr item
          \<and> topic item = find_topic fb
          \<and> (topic item = ''Recursion'' \<longrightarrow> video_link item =
                ''https://www.youtube.com/results?search_query=Recursion+tutorial'')
          \<and> (topic item = [] \<longrightarrow> video_link item = ''https://www.youtube.com/'')"
    using search_url_Recursion
    by (simp add: fix_placeholder_def link_or_search_def generic_url_def)
next
  obtain items where "extract_days_and_questions text = Inr items"
    using extract_total by blast
  then show "\<exists>items. extract_days_and_questions text = Inr items
          \<and> (\<forall>item \<in> set items. video_link item \<noteq> [])"
    using video_link_nonempty by blast
qed

text \<open>
  The theorem on the block \<^verbatim>\<open>Day 1: Topic: Recursion\<close> and, for the fallback parser, on
  \<^verbatim>\<open>Day 2 Review\<close>.
\<close>

theorem link_fallback_witness:
  "(\<exists>item. primary_item recursion_block = Some item \<and> topic item = ''Recursion''
        \<and> video_link item = recursion_url)
   \<and> (\<exists>item. fallback_item review_unmarked = Inr item \<and> topic item = []
        \<and> video_link item = ''https://www.youtube.com/'')
   \<and> extract_days_and_questions recursion_block = Inr [\<lparr>day_title = ''Day 1:'',
        topic = ''Recursion'', video_link = recursion_url, questions = []\<rparr>]"
  using link_fallback [of recursion_block review_unmarked recursion_block]
    recursion_block_header recursion_block_no_label recursion_block_no_url
    recursion_block_topic review_unmarked_no_url review_unmarked_topic recursion_block_result
  by (auto simp: recursion_url_def)

text \<open>
  Claim C8, as stated, ends with "the sentinel URL is never returned".  In the block below
  the only URL contains \<^verbatim>\<open>VIDEO_ID_HERE\<close> and is the search URL of the block's own topic,
  which is \<^verbatim>\<open>VIDEO_ID_HERE\<close>; the link that is returned is that URL.
\<close>

theorem sentinel_returned_counterexample:
  "map m_text (re_finditer no_flags url_re sentinel_topic_block) = [sentinel_url]
   \<and> contains ''VIDEO_ID_HERE'' sentinel_url
   \<and> extract_days_and_questions sentinel_topic_block = Inr [\<lparr>day_title = ''Day'',
        topic = ''VIDEO_ID_HERE'', video_link = sentinel_url, questions = []\<rparr>]"
  by code_simp

text \<open>
  Claim C8, amended.  When the link found in a block contains \<^verbatim>\<open>VIDEO_ID_HERE\<close>, the link
  of the item is the search URL of the topic when the topic is non-empty and the generic
  URL when it is empty, and it contains \<^verbatim>\<open>VIDEO_ID_HERE\<close> only if the topic does.
\<close>

theorem placeholder_override:
  "(re_match flags_i block_re (strip b) \<noteq> None
      \<and> contains ''VIDEO_ID_HERE'' (find_link (block_rest (strip b)))
    \<longrightarrow> (\<exists>item. primary_item b = Some item
          \<and> topic item = find_topic (block_rest (strip b))
          \<and> video_link item = (if topic item \<noteq> [] then search_url (topic item) else generic_url)
          \<and> (\<not> contains ''VIDEO_ID_HERE'' (topic item)
                \<longrightarrow> \<not> contains ''VIDEO_ID_HERE'' (video_link item))))
   \<and> (contains ''VIDEO_ID_HERE'' (fallback_link fb)
    \<longrightarrow> (\<exists>item. fallback_item fb = Inr item
          \<and> topic item = find_topic fb
          \<and> video_link item = (if topic item \<noteq> [] then search_url (topic item) else generic_url)
          \<and> (\<not> contains ''VIDEO_ID_HERE'' (topic item)
                \<longrightarrow> \<not> contains ''VIDEO_ID_HERE'' (video_link item))))"
proof (intro conjI impI)
  have fixed: "link_or_search tp (fix_placeholder tp link) = (if tp \<noteq> [] then search_url tp else generic_url)"
    if "contains ''VIDEO_ID_HERE'' link" for tp link
    using that by (simp add: fix_placeholder_def link_or_search_def search_url_def generic_url_def)
  have clean: "\<not> contains ''VIDEO_ID_HERE'' (if tp \<noteq> [] then search_url tp else generic_url)"
    if "\<not> contains ''VIDEO_ID_HERE'' tp" for tp
    using that search_url_keeps_out_sentinel generic_url_no_sentinel by simp
  {
    assume h: "re_match flags_i block_re (strip b) \<noteq> None
      \<and> contains ''VIDEO_ID_HERE'' (find_link (block_rest (strip b)))"
    then show "\<exists>item. primary_item b = Some item
          \<and> topic item = find_topic (block_rest (strip b))
          \<and> video_link item = (if topic item \<noteq> [] then search_url (topic item) else generic_url)
          \<and> (\<not> contains ''VIDEO_ID_HERE'' (topic item)
                \<longrightarrow> \<not> contains ''VIDEO_ID_HERE'' (video_link item))"
      using clean [of "find_topic (block_rest (strip b))"]
      by (simp add: primary_item_value fixed)
  next
    assume h: "contains ''VIDEO_ID_HERE'' (fallback_link fb)"
    obtain title where "fallback_item fb = Inr \<lparr>day_title = title,
      topic = find_topic fb,
      video_link = link_or_search (find_topic fb) (fix_placeholder (find_topic fb) (fallback_link fb)),
      questions = take 10 (case questions_section fb of
            Some q_text \<Rightarrow> question_lines q_text | None \<Rightarrow> [])\<rparr>"
      using fallback_item_value by blast
    with h show "\<exists>item. fallback_item fb = Inr item
          \<and> topic item = find_topic fb
          \<and> video_link item = (if topic item \<noteq> [] then search_url (topic item) else generic_url)
          \<and> (\<not> contains ''VIDEO_ID_HERE'' (topic item)
                \<longrightarrow> \<not> contains ''VIDEO_ID_HERE'' (video_link item))"
      using clean [of "find_topic fb"] by (simp add: fixed)
  }
qed

text \<open>
  The theorem on a block with the topic \<^verbatim>\<open>Trees\<close> and, for the fallback parser, on a
  block without topic.
\<close>

theorem placeholder_override_witness:
  "(\<exists>item. primary_item placeholder_block = Some item \<and> topic item = ''Trees''
        \<and> video_link item = ''https://www.youtube.com/results?search_query=Trees+tutorial''
        \<and> \<not> contains ''VIDEO_ID_HERE'' (video_link item))
   \<and> (\<exists>item. fallback_item placeholder_unmarked = Inr item \<and> topic item = []
        \<and> video_link item = ''https://www.youtube.com/'')"
  using placeholder_override [of placeholder_block placeholder_unmarked]
    placeholder_block_header placeholder_block_link placeholder_block_topic
    placeholder_unmarked_link placeholder_unmarked_topic search_url_Trees
  by (auto simp: generic_url_def)

end
